theory Spec2Isabelle
  imports Main "HOL-Library.AList"
begin

section \<open>Values: errors, results, outcomes of calls\<close>

text \<open>
  The package \<open>health\<close> (file \<open>health.go\<close>) keeps named health checks in a registry and
  serves their aggregated state over HTTP. This theory embeds its functions as HOL functions
  over an explicit process state and proves properties of them.

  A Go \<open>error\<close> is an interface value: \<open>nil\<close>, or an object with a message. It is modelled
  as \<open>go_error option\<close>, \<open>None\<close> being \<open>nil\<close>.
\<close>

datatype go_error = GoError string

fun Error_text :: "go_error \<Rightarrow> string" where
  "Error_text (GoError m) = m"

text \<open>\<open>type Result struct { Error error; Message string }\<close>\<close>

record Result =
  Error :: "go_error option"
  Message :: string

text \<open>
  A Go call either returns or panics. A panic carries its value (here: its text). The state
  the panic leaves behind is returned next to the outcome by every function that mutates
  the state, because in Go the heap as it was when the panic started stays observable.
\<close>

datatype 'a outcome = Returns 'a | Panics string

definition nil_dereference :: string where
  "nil_dereference = ''runtime error: invalid memory address or nil pointer dereference''"

section \<open>Checkers and the process state\<close>

text \<open>
  \<open>Checker\<close> is an interface with the one method \<open>Check() Result\<close>. The package has two
  implementations: \<open>CheckFunc\<close>, a function value, and \<open>*updater\<close>, a pointer to a
  mutex-guarded cell.

  A \<open>CheckFunc\<close> is an opaque callable. It is modelled as a function of the environment
  \<open>'e\<close> it observes when it is called (network, disk, clock); it returns a \<open>Result\<close> or
  panics. Two things are abstracted: a callable is taken to terminate, and it is taken not
  to modify the registries and updaters of this package.

  A \<open>*updater\<close> is an index into the list of updater cells of the process. A nil
  \<open>Checker\<close>, a nil function and a nil \<open>*updater\<close> all panic when \<open>Check\<close> is
  called on them: they are a callable that panics, or an index outside the list.
\<close>

datatype 'e Checker = CheckFunc "'e \<Rightarrow> Result outcome" | UpdaterPtr nat

text \<open>\<open>type Registry struct { mu sync.RWMutex; registeredChecks map[string]Checker }\<close>

  The Go map is an association list that is only changed by \<open>AList.update\<close> (the map
  assignment) and read by \<open>map_of\<close> (the map lookup); \<open>None\<close> is the nil map of a
  \<open>Registry\<close> that was not made by \<open>NewRegistry\<close>. The locks are not modelled: every
  function below is one critical section, executed atomically.\<close>

record 'e Registry =
  registeredChecks :: "(string \<times> 'e Checker) list option"

text \<open>The goroutine started by \<open>PeriodicChecker\<close>: its captured variables \<open>period\<close>,
  \<open>check\<close> and \<open>u\<close>.\<close>

record 'e goroutine =
  period :: int
  check :: "'e Checker"
  u :: nat

text \<open>
  The process state: the updater cells (field \<open>status\<close> of each \<open>updater\<close>), the
  \<open>Registry\<close> objects, the package variable \<open>DefaultRegistry\<close> (a \<open>*Registry\<close>, \<open>None\<close>
  being \<open>nil\<close>) and the running goroutines. A \<open>*Registry\<close> is \<open>nat option\<close>.
\<close>

record 'e process =
  updaters :: "Result list"
  registries :: "'e Registry list"
  DefaultRegistry :: "nat option"
  goroutines :: "'e goroutine list"

section \<open>Updater\<close>

text \<open>\<open>func (u *updater) Check() Result\<close>: returns \<open>u.status\<close>.\<close>

definition updater_Check :: "'e process \<Rightarrow> nat \<Rightarrow> Result outcome" where
  "updater_Check s p =
     (if p < length (updaters s) then Returns (updaters s ! p) else Panics nil_dereference)"

text \<open>\<open>func (u *updater) Update(status Result)\<close>: \<open>u.status = status\<close>.\<close>

definition updater_Update :: "'e process \<Rightarrow> nat \<Rightarrow> Result \<Rightarrow> unit outcome \<times> 'e process" where
  "updater_Update s p status =
     (if p < length (updaters s)
      then (Returns (), s\<lparr>updaters := (updaters s)[p := status]\<rparr>)
      else (Panics nil_dereference, s))"

text \<open>\<open>func NewStatusUpdater() Updater { return &updater{} }\<close>: a new cell holding the
  zero value of \<open>Result\<close>.\<close>

definition zero_Result :: Result where
  "zero_Result = \<lparr>Error = None, Message = ''''\<rparr>"

definition NewStatusUpdater :: "'e process \<Rightarrow> 'e process \<times> nat" where
  "NewStatusUpdater s = (s\<lparr>updaters := updaters s @ [zero_Result]\<rparr>, length (updaters s))"

text \<open>The method \<open>Check\<close> of the interface, dispatched on the implementation.
  \<open>func (cf CheckFunc) Check() Result { return cf() }\<close>\<close>

fun Check :: "'e \<Rightarrow> 'e process \<Rightarrow> 'e Checker \<Rightarrow> Result outcome" where
  "Check env s (CheckFunc cf) = cf env"
| "Check env s (UpdaterPtr p) = updater_Check s p"

section \<open>Periodic checker\<close>

text \<open>
  \<open>PeriodicChecker\<close> allocates an updater, starts a goroutine and returns the updater.
  The goroutine is recorded in the state; it runs one loop iteration at each \<open>tick\<close>.
\<close>

definition PeriodicChecker :: "'e process \<Rightarrow> 'e Checker \<Rightarrow> int \<Rightarrow> 'e process \<times> 'e Checker" where
  "PeriodicChecker s chk per =
     (let (s1, p) = NewStatusUpdater s
      in (s1\<lparr>goroutines := goroutines s1 @ [\<lparr>period = per, check = chk, u = p\<rparr>]\<rparr>,
          UpdaterPtr p))"

text \<open>
  One iteration of the loop of goroutine number \<open>g\<close>, in the environment \<open>env\<close> of that
  moment: \<open><-t.C; u.Update(check.Check())\<close>. \<open>time.NewTicker\<close> of the standard library
  panics for a period that is not positive, so such a goroutine never ticks. A panic in a
  goroutine ends the program. What is abstracted: the ticks are events, their times are
  not modelled.
\<close>

definition tick :: "'e process \<Rightarrow> nat \<Rightarrow> 'e \<Rightarrow> unit outcome \<times> 'e process" where
  "tick s g env =
     (if g < length (goroutines s) then
        (let gr = goroutines s ! g in
         if period gr \<le> 0 then (Panics ''non-positive interval for NewTicker'', s)
         else (case Check env s (check gr) of
                 Panics m \<Rightarrow> (Panics m, s)
               | Returns res \<Rightarrow> updater_Update s (u gr) res))
      else (Returns (), s))"

text \<open>A schedule is a list of ticks, each of a goroutine in an environment. It runs until
  the first panic.\<close>

fun run :: "'e process \<Rightarrow> (nat \<times> 'e) list \<Rightarrow> unit outcome \<times> 'e process" where
  "run s [] = (Returns (), s)"
| "run s ((g, env) # evs) =
     (case tick s g env of
        (Panics m, s') \<Rightarrow> (Panics m, s')
      | (Returns _, s') \<Rightarrow> run s' evs)"

section \<open>Registry\<close>

text \<open>\<open>func NewRegistry() *Registry\<close>\<close>

definition NewRegistry :: "'e process \<Rightarrow> 'e process \<times> nat" where
  "NewRegistry s =
     (s\<lparr>registries := registries s @ [\<lparr>registeredChecks = Some []\<rparr>]\<rparr>,
      length (registries s))"

text \<open>\<open>func init() { DefaultRegistry = NewRegistry() }\<close>, and the state of a process after
  package initialisation.\<close>

definition init :: "'e process \<Rightarrow> 'e process" where
  "init s = (let (s1, r) = NewRegistry s in s1\<lparr>DefaultRegistry := Some r\<rparr>)"

abbreviation started :: "'e process" where
  "started \<equiv> init \<lparr>updaters = [], registries = [], DefaultRegistry = None, goroutines = []\<rparr>"

text \<open>\<open>type HealthCheck struct { Healthy bool; Message string }\<close> and
  \<open>type Status map[string]HealthCheck\<close>\<close>

record HealthCheck =
  Healthy :: bool
  Message :: string

type_synonym Status = "(string \<times> HealthCheck) list"

text \<open>The loop \<open>for k, v := range registry.registeredChecks\<close> of \<open>CheckStatus\<close>. Go
  leaves the order of the iteration open; the model takes the order of the list.\<close>

fun CheckStatus_range :: "'e \<Rightarrow> 'e process \<Rightarrow> (string \<times> 'e Checker) list \<Rightarrow> Status \<Rightarrow> Status outcome" where
  "CheckStatus_range env s [] status = Returns status"
| "CheckStatus_range env s ((k, v) # rest) status =
     (case Check env s v of
        Panics m \<Rightarrow> Panics m
      | Returns res \<Rightarrow>
          (let healthy = (Error res = None)
           in CheckStatus_range env s rest
                (AList.update k \<lparr>Healthy = healthy, Message = Result.Message res\<rparr> status)))"

text \<open>\<open>func (registry *Registry) CheckStatus() Status\<close>. There is no nil check:
  \<open>registry.mu.RLock()\<close> on a nil pointer panics. The loop over a nil map has no
  iteration.\<close>

definition Registry_CheckStatus :: "'e \<Rightarrow> 'e process \<Rightarrow> nat option \<Rightarrow> Status outcome" where
  "Registry_CheckStatus env s registry =
     (case registry of
        None \<Rightarrow> Panics nil_dereference
      | Some r \<Rightarrow>
          if r < length (registries s) then
            (case registeredChecks (registries s ! r) of
               None \<Rightarrow> Returns []
             | Some checks \<Rightarrow> CheckStatus_range env s checks [])
          else Panics nil_dereference)"

text \<open>\<open>func CheckStatus() Status { return DefaultRegistry.CheckStatus() }\<close>\<close>

definition CheckStatus :: "'e \<Rightarrow> 'e process \<Rightarrow> Status outcome" where
  "CheckStatus env s = Registry_CheckStatus env s (DefaultRegistry s)"

text \<open>\<open>func (registry *Registry) Register(name string, check Checker)\<close>. The lookup in
  a nil map finds nothing; the assignment to a nil map panics.\<close>

definition Registry_Register ::
  "'e process \<Rightarrow> nat option \<Rightarrow> string \<Rightarrow> 'e Checker \<Rightarrow> unit outcome \<times> 'e process" where
  "Registry_Register s registry name chk =
     (let registry = (if registry = None then DefaultRegistry s else registry) in
      case registry of
        None \<Rightarrow> (Panics nil_dereference, s)
      | Some r \<Rightarrow>
          if r < length (registries s) then
            (let reg = registries s ! r in
             case registeredChecks reg of
               None \<Rightarrow> (Panics ''assignment to entry in nil map'', s)
             | Some checks \<Rightarrow>
                 (case map_of checks name of
                    Some _ \<Rightarrow> (Panics (''Check already exists: '' @ name), s)
                  | None \<Rightarrow>
                      (Returns (),
                       s\<lparr>registries := (registries s)
                            [r := reg\<lparr>registeredChecks := Some (AList.update name chk checks)\<rparr>]\<rparr>)))
          else (Panics nil_dereference, s))"

text \<open>What a registry holds under a name: the map lookup
  \<open>registry.registeredChecks[name]\<close>, which finds nothing in a nil map.\<close>

definition registered :: "'e process \<Rightarrow> nat \<Rightarrow> string \<Rightarrow> 'e Checker option" where
  "registered s r name =
     (if r < length (registries s) then
        (case registeredChecks (registries s ! r) of
           None \<Rightarrow> None
         | Some checks \<Rightarrow> map_of checks name)
      else None)"

text \<open>\<open>func Register(name string, check Checker) { DefaultRegistry.Register(name, check) }\<close>\<close>

definition Register :: "'e process \<Rightarrow> string \<Rightarrow> 'e Checker \<Rightarrow> unit outcome \<times> 'e process" where
  "Register s name chk = Registry_Register s (DefaultRegistry s) name chk"

text \<open>\<open>func (registry *Registry) RegisterFunc(name string, check CheckFunc)\<close>\<close>

definition Registry_RegisterFunc ::
  "'e process \<Rightarrow> nat option \<Rightarrow> string \<Rightarrow> ('e \<Rightarrow> Result outcome) \<Rightarrow> unit outcome \<times> 'e process" where
  "Registry_RegisterFunc s registry name cf = Registry_Register s registry name (CheckFunc cf)"

text \<open>\<open>func (registry *Registry) RegisterPeriodicFunc(name string, period time.Duration,
  check CheckFunc)\<close>: the argument \<open>PeriodicChecker(check, period)\<close> is evaluated first.\<close>

definition Registry_RegisterPeriodicFunc ::
  "'e process \<Rightarrow> nat option \<Rightarrow> string \<Rightarrow> int \<Rightarrow> ('e \<Rightarrow> Result outcome) \<Rightarrow> unit outcome \<times> 'e process" where
  "Registry_RegisterPeriodicFunc s registry name per cf =
     (let (s1, c) = PeriodicChecker s (CheckFunc cf) per in Registry_Register s1 registry name c)"

text \<open>A sequence of registrations on one registry, stopping at the first panic.\<close>

fun Register_all ::
  "'e process \<Rightarrow> nat option \<Rightarrow> (string \<times> 'e Checker) list \<Rightarrow> unit outcome \<times> 'e process" where
  "Register_all s registry [] = (Returns (), s)"
| "Register_all s registry ((name, chk) # rest) =
     (case Registry_Register s registry name chk of
        (Panics m, s') \<Rightarrow> (Panics m, s')
      | (Returns _, s') \<Rightarrow> Register_all s' registry rest)"

section \<open>The HTTP surface\<close>

text \<open>
  \<open>http.ResponseWriter\<close> and \<open>http.Request\<close> belong to the standard library. Of the
  request only \<open>Method\<close> is read. The response writer is modelled by what it has been sent:
  the header map, the status code of the first \<open>WriteHeader\<close> (\<open>None\<close> before it) and the
  body bytes written. \<open>writeError\<close> is the error, if any, that the connection answers to a
  \<open>Write\<close>; it is fixed by the environment.
\<close>

record Request =
  Method :: string

record ResponseWriter =
  header :: "(string \<times> string) list"
  wroteHeader :: "int option"
  written :: string
  writeError :: "go_error option"

definition StatusOK :: int where "StatusOK = 200"
definition StatusNotFound :: int where "StatusNotFound = 404"
definition StatusInternalServerError :: int where "StatusInternalServerError = 500"
definition StatusServiceUnavailable :: int where "StatusServiceUnavailable = 503"

text \<open>\<open>w.Header().Set(key, value)\<close>\<close>

definition Header_Set :: "ResponseWriter \<Rightarrow> string \<Rightarrow> string \<Rightarrow> ResponseWriter" where
  "Header_Set w key val = w\<lparr>header := AList.update key val (header w)\<rparr>"

text \<open>\<open>w.WriteHeader(code)\<close>: only the first call of a response counts.\<close>

definition WriteHeader :: "ResponseWriter \<Rightarrow> int \<Rightarrow> ResponseWriter" where
  "WriteHeader w code = (case wroteHeader w of None \<Rightarrow> w\<lparr>wroteHeader := Some code\<rparr> | Some _ \<Rightarrow> w)"

text \<open>\<open>w.Write(p)\<close>: sends the header with \<open>StatusOK\<close> if none was sent, then the bytes;
  returns the error of the connection.\<close>

definition Write :: "ResponseWriter \<Rightarrow> string \<Rightarrow> ResponseWriter \<times> go_error option" where
  "Write w p =
     (let w1 = WriteHeader w StatusOK in
      case writeError w1 of
        Some err \<Rightarrow> (w1, Some err)
      | None \<Rightarrow> (w1\<lparr>written := written w1 @ p\<rparr>, None))"

text \<open>
  \<open>http.Error(w, error, code)\<close> and \<open>http.NotFound(w, r)\<close> of the standard library
  \<open>net/http\<close>, after their documentation: \<open>Error\<close> sets the content type to plain text,
  sends the code and writes the message followed by a newline; \<open>NotFound\<close> is
  \<open>Error(w, "404 page not found", StatusNotFound)\<close>.
\<close>

definition http_Error :: "ResponseWriter \<Rightarrow> string \<Rightarrow> int \<Rightarrow> ResponseWriter" where
  "http_Error w err code =
     (let w1 = Header_Set w ''Content-Type'' ''text/plain; charset=utf-8'';
          w2 = Header_Set w1 ''X-Content-Type-Options'' ''nosniff'';
          w3 = WriteHeader w2 code
      in fst (Write w3 (err @ [CHR 0x0A])))"

definition http_NotFound :: "ResponseWriter \<Rightarrow> Request \<Rightarrow> ResponseWriter" where
  "http_NotFound w r = http_Error w ''404 page not found'' StatusNotFound"

text \<open>\<open>fmt.Sprint\<close> of a length: its decimal digits.\<close>

fun Sprint :: "nat \<Rightarrow> string" where
  "Sprint n = (if n < 10 then [''0123456789'' ! n] else Sprint (n div 10) @ [''0123456789'' ! (n mod 10)])"

declare Sprint.simps [simp del]

text \<open>
  \<open>json.Marshal\<close> of the standard library is a parameter of the model: a function from the
  value to be encoded to the bytes or an error. The handler encodes two kinds of value, a
  \<open>Status\<close> and the anonymous struct with the field \<open>ServerError\<close>.
\<close>

record ServerErrorBody =
  ServerError :: string

datatype json_value = StatusValue Status | ServerErrorValue ServerErrorBody

type_synonym marshal = "json_value \<Rightarrow> go_error + string"

text \<open>The last lines of \<open>statusResponse\<close>, common to both encodings: the two headers,
  the status code, the body, and the log line when the write fails. The second component
  is the log of the process.\<close>

definition statusResponse_send ::
  "ResponseWriter \<times> string list \<Rightarrow> int \<Rightarrow> string \<Rightarrow> ResponseWriter \<times> string list" where
  "statusResponse_send wl status p =
     (let (w, lg) = wl;
          w1 = Header_Set w ''Content-Type'' ''application/json; charset=utf-8'';
          w2 = Header_Set w1 ''Content-Length'' (Sprint (length p));
          w3 = WriteHeader w2 status
      in case Write w3 p of
           (w4, Some err) \<Rightarrow>
             (w4, lg @ [''error writing health status response body: '' @ Error_text err])
         | (w4, None) \<Rightarrow> (w4, lg))"

text \<open>\<open>func statusResponse(w http.ResponseWriter, r *http.Request, status int, checks Status)\<close>\<close>

definition statusResponse ::
  "marshal \<Rightarrow> ResponseWriter \<times> string list \<Rightarrow> Request \<Rightarrow> int \<Rightarrow> Status
     \<Rightarrow> ResponseWriter \<times> string list" where
  "statusResponse Marshal wl r status checks =
     (case Marshal (StatusValue checks) of
        Inr p \<Rightarrow> statusResponse_send wl status p
      | Inl err \<Rightarrow>
          (let wl1 = (fst wl, snd wl @ [''error serializing health status: '' @ Error_text err])
           in case Marshal (ServerErrorValue \<lparr>ServerError = ''Could not parse error message''\<rparr>) of
                Inl err2 \<Rightarrow>
                  (fst wl1,
                   snd wl1 @ [''error serializing health status failure message: '' @ Error_text err2])
              | Inr p2 \<Rightarrow> statusResponse_send wl1 StatusInternalServerError p2))"

text \<open>The loop \<open>for _, v := range checks\<close> of \<open>StatusHandler\<close>.\<close>

fun isFailing_range :: "Status \<Rightarrow> bool \<Rightarrow> bool" where
  "isFailing_range [] isFailing = isFailing"
| "isFailing_range ((k, v) # rest) isFailing =
     isFailing_range rest (if \<not> Healthy v then True else isFailing)"

text \<open>\<open>func StatusHandler(w http.ResponseWriter, r *http.Request)\<close>\<close>

definition StatusHandler ::
  "marshal \<Rightarrow> 'e \<Rightarrow> 'e process \<Rightarrow> ResponseWriter \<times> string list \<Rightarrow> Request
     \<Rightarrow> unit outcome \<times> ResponseWriter \<times> string list" where
  "StatusHandler Marshal env s wl r =
     (if Method r = ''GET'' then
        (case CheckStatus env s of
           Panics m \<Rightarrow> (Panics m, wl)
         | Returns checks \<Rightarrow>
             (let isFailing = isFailing_range checks False;
                  status = (if isFailing then StatusServiceUnavailable else StatusOK)
              in (Returns (), statusResponse Marshal wl r status checks)))
      else (Returns (), http_NotFound (fst wl) r, snd wl))"

text \<open>A response writer nothing has been sent to, on a connection that accepts writes.\<close>

definition NewRecorder :: ResponseWriter where
  "NewRecorder = \<lparr>header = [], wroteHeader = None, written = [], writeError = None\<rparr>"

section \<open>Example inputs\<close>

text \<open>Concrete checkers, registries and encoders, on which the theorems below are
  instantiated. The environment of the examples is \<open>unit\<close>.\<close>

definition healthy_check :: "unit \<Rightarrow> Result outcome" where
  "healthy_check env = Returns \<lparr>Error = None, Result.Message = ''ok''\<rparr>"

definition failing_check :: "unit \<Rightarrow> Result outcome" where
  "failing_check env =
     Returns \<lparr>Error = Some (GoError ''timeout''), Result.Message = ''disk full''\<rparr>"

definition panicking_check :: "unit \<Rightarrow> Result outcome" where
  "panicking_check env = Panics ''boom''"

definition one_check :: "unit process" where
  "one_check = snd (Register started ''disk'' (CheckFunc failing_check))"

definition two_checks :: "(string \<times> unit Checker) list" where
  "two_checks = [(''disk'', CheckFunc failing_check), (''db'', CheckFunc healthy_check)]"

definition panicking_registry :: "unit process" where
  "panicking_registry = snd (Register started ''db'' (CheckFunc panicking_check))"

definition encode_ok :: marshal where
  "encode_ok v = Inr ''{}''"

definition encode_fallback_only :: marshal where
  "encode_fallback_only v =
     (case v of
        StatusValue st \<Rightarrow> Inl (GoError ''unsupported value'')
      | ServerErrorValue b \<Rightarrow> Inr (''server_error='' @ ServerError b))"

definition encode_fails :: marshal where
  "encode_fails v = Inl (GoError ''unsupported value'')"

text \<open>A checker that reads a load figure from its environment, and the process that wraps
  it in a periodic checker with period 5.\<close>

definition probe :: "nat \<Rightarrow> Result outcome" where
  "probe load =
     (if load < 3 then Returns \<lparr>Error = None, Result.Message = ''up''\<rparr>
      else Returns \<lparr>Error = Some (GoError ''overload''), Result.Message = ''busy''\<rparr>)"

definition probed :: "nat process" where
  "probed = fst (PeriodicChecker started (CheckFunc probe) 5)"

section \<open>Facts about the model\<close>

subsection \<open>The example states, evaluated\<close>

lemma one_check_eq:
  "one_check = \<lparr>updaters = [],
     registries = [\<lparr>registeredChecks = Some [(''disk'', CheckFunc failing_check)]\<rparr>],
     DefaultRegistry = Some 0, goroutines = []\<rparr>"
  by (simp add: one_check_def Register_def Registry_Register_def init_def NewRegistry_def)

lemma one_check_status:
  "CheckStatus () one_check = Returns [(''disk'', \<lparr>Healthy = False, Message = ''disk full''\<rparr>)]"
  by (simp add: one_check_eq CheckStatus_def Registry_CheckStatus_def failing_check_def)

lemma started_status: "CheckStatus () started = Returns []"
  by (simp add: init_def NewRegistry_def CheckStatus_def Registry_CheckStatus_def)

lemma NewRecorder_fresh:
  "wroteHeader NewRecorder = None" "writeError NewRecorder = None" "written NewRecorder = []"
  by (simp_all add: NewRecorder_def)

subsection \<open>Registration\<close>

lemma update_fresh: "k \<notin> fst ` set al \<Longrightarrow> AList.update k v al = al @ [(k, v)]"
  by (induction al) auto

lemma Check_updaters: "updaters s' = updaters s \<Longrightarrow> Check env s' c = Check env s c"
  by (cases c) (simp_all add: updater_Check_def)

lemma Registry_Register_fresh:
  assumes "r < length (registries s)"
      and "registeredChecks (registries s ! r) = Some al"
      and "name \<notin> fst ` set al"
  shows "Registry_Register s (Some r) name chk =
      (Returns (), s\<lparr>registries := (registries s)
            [r := (registries s ! r)\<lparr>registeredChecks := Some (al @ [(name, chk)])\<rparr>]\<rparr>)"
proof -
  from assms(3) have "map_of al name = None"
    by (simp add: map_of_eq_None_iff)
  with assms show ?thesis
    by (simp add: Registry_Register_def update_fresh Let_def)
qed

lemma Register_all_fresh:
  assumes "r < length (registries s)"
      and "registeredChecks (registries s ! r) = Some al"
      and "distinct (map fst regs)"
      and "fst ` set regs \<inter> fst ` set al = {}"
  shows "Register_all s (Some r) regs =
      (Returns (), s\<lparr>registries := (registries s)
            [r := (registries s ! r)\<lparr>registeredChecks := Some (al @ regs)\<rparr>]\<rparr>)"
  using assms
proof (induction regs arbitrary: s al)
  case Nil
  from Nil.prems(2) have "(registries s ! r)\<lparr>registeredChecks := Some al\<rparr> = registries s ! r"
    by simp
  then show ?case by simp
next
  case (Cons a regs)
  obtain name chk where a: "a = (name, chk)" by (cases a)
  let ?s' = "s\<lparr>registries := (registries s)
            [r := (registries s ! r)\<lparr>registeredChecks := Some (al @ [(name, chk)])\<rparr>]\<rparr>"
  from Cons.prems a have fresh: "name \<notin> fst ` set al"
    by auto
  have step: "Registry_Register s (Some r) name chk = (Returns (), ?s')"
    using Registry_Register_fresh [OF Cons.prems(1,2) fresh] .
  have r': "r < length (registries ?s')" using Cons.prems(1) by simp
  have d': "distinct (map fst regs)" using Cons.prems(3) by simp
  have rc: "registeredChecks (registries ?s' ! r) = Some (al @ [(name, chk)])"
    using Cons.prems(1) by simp
  have f': "fst ` set regs \<inter> fst ` set (al @ [(name, chk)]) = {}"
    using Cons.prems(3,4) a by auto
  have "Register_all s (Some r) (a # regs) = Register_all ?s' (Some r) regs"
    by (simp add: a step)
  also have "\<dots> = (Returns (), ?s'\<lparr>registries := (registries ?s')
            [r := (registries ?s' ! r)\<lparr>registeredChecks := Some ((al @ [(name, chk)]) @ regs)\<rparr>]\<rparr>)"
    by (rule Cons.IH [OF r' rc d' f'])
  also have "\<dots> = (Returns (), s\<lparr>registries := (registries s)
            [r := (registries s ! r)\<lparr>registeredChecks := Some (al @ a # regs)\<rparr>]\<rparr>)"
    using Cons.prems(1) by (simp add: a)
  finally show ?case .
qed

subsection \<open>The loop of \<open>CheckStatus\<close>\<close>

lemma CheckStatus_range_Returns:
  "\<forall>(k, c) \<in> set cs. \<exists>res. Check env s c = Returns res \<Longrightarrow>
     \<exists>st. CheckStatus_range env s cs acc = Returns st"
  by (induction cs arbitrary: acc) (auto simp: Let_def)

lemma CheckStatus_range_Cons:
  assumes "CheckStatus_range env s ((k, c) # cs) acc = Returns st"
  obtains res where "Check env s c = Returns res"
    and "CheckStatus_range env s cs
           (AList.update k \<lparr>Healthy = (Error res = None), Message = Result.Message res\<rparr> acc) = Returns st"
  using assms by (auto simp: Let_def split: outcome.splits)

lemma CheckStatus_range_keys:
  "CheckStatus_range env s cs acc = Returns st \<Longrightarrow> fst ` set st = fst ` set acc \<union> fst ` set cs"
proof (induction cs arbitrary: acc)
  case Nil
  then show ?case by simp
next
  case (Cons a cs)
  obtain k c where a: "a = (k, c)" by (cases a)
  from Cons.prems obtain res where res: "Check env s c = Returns res"
    and rest: "CheckStatus_range env s cs
        (AList.update k \<lparr>Healthy = (Error res = None), Message = Result.Message res\<rparr> acc) = Returns st"
    unfolding a by (rule CheckStatus_range_Cons)
  from Cons.IH [OF rest] show ?case
    by (auto simp: a dom_update)
qed

lemma CheckStatus_range_distinct:
  "CheckStatus_range env s cs acc = Returns st \<Longrightarrow> distinct (map fst acc) \<Longrightarrow> distinct (map fst st)"
proof (induction cs arbitrary: acc)
  case Nil
  then show ?case by simp
next
  case (Cons a cs)
  obtain k c where a: "a = (k, c)" by (cases a)
  from Cons.prems(1) obtain res where res: "Check env s c = Returns res"
    and rest: "CheckStatus_range env s cs
        (AList.update k \<lparr>Healthy = (Error res = None), Message = Result.Message res\<rparr> acc) = Returns st"
    unfolding a by (rule CheckStatus_range_Cons)
  from Cons.IH [OF rest] Cons.prems(2) show ?case
    by (simp add: distinct_update)
qed

lemma CheckStatus_range_other:
  "CheckStatus_range env s cs acc = Returns st \<Longrightarrow> k \<notin> fst ` set cs \<Longrightarrow> map_of st k = map_of acc k"
proof (induction cs arbitrary: acc)
  case Nil
  then show ?case by simp
next
  case (Cons a cs)
  obtain k' c where a: "a = (k', c)" by (cases a)
  from Cons.prems(1) obtain res where res: "Check env s c = Returns res"
    and rest: "CheckStatus_range env s cs
        (AList.update k' \<lparr>Healthy = (Error res = None), Message = Result.Message res\<rparr> acc) = Returns st"
    unfolding a by (rule CheckStatus_range_Cons)
  from Cons.prems(2) a have ne: "k \<noteq> k'" and notin: "k \<notin> fst ` set cs" by auto
  from Cons.IH [OF rest notin] ne show ?case
    by (simp add: update_conv')
qed

lemma CheckStatus_range_entry:
  "CheckStatus_range env s cs acc = Returns st \<Longrightarrow> distinct (map fst cs) \<Longrightarrow> (k, c) \<in> set cs \<Longrightarrow>
     \<exists>res. Check env s c = Returns res \<and>
           map_of st k = Some \<lparr>Healthy = (Error res = None), Message = Result.Message res\<rparr>"
proof (induction cs arbitrary: acc)
  case Nil
  then show ?case by simp
next
  case (Cons a cs)
  obtain k' c' where a: "a = (k', c')" by (cases a)
  from Cons.prems(1) obtain res where res: "Check env s c' = Returns res"
    and rest: "CheckStatus_range env s cs
        (AList.update k' \<lparr>Healthy = (Error res = None), Message = Result.Message res\<rparr> acc) = Returns st"
    unfolding a by (rule CheckStatus_range_Cons)
  from Cons.prems(2) a have fresh: "k' \<notin> fst ` set cs" and d: "distinct (map fst cs)" by auto
  show ?case
  proof (cases "(k, c) = (k', c')")
    case True
    from CheckStatus_range_other [OF rest fresh]
    have "map_of st k' = Some \<lparr>Healthy = (Error res = None), Message = Result.Message res\<rparr>"
      by (simp add: update_conv')
    with True res show ?thesis by auto
  next
    case False
    with Cons.prems(3) a have "(k, c) \<in> set cs" by auto
    from Cons.IH [OF rest d this] show ?thesis .
  qed
qed

lemma CheckStatus_range_Panics_iff:
  "(\<exists>m. CheckStatus_range env s cs acc = Panics m) \<longleftrightarrow>
   (\<exists>(k, c) \<in> set cs. \<exists>m. Check env s c = Panics m)"
proof (induction cs arbitrary: acc)
  case Nil
  then show ?case by simp
next
  case (Cons a cs)
  obtain k c where a: "a = (k, c)" by (cases a)
  show ?case
  proof (cases "Check env s c")
    case (Returns res)
    then show ?thesis using Cons.IH by (simp add: a Let_def)
  next
    case (Panics m)
    then show ?thesis by (auto simp: a)
  qed
qed

subsection \<open>The handler\<close>

lemma isFailing_range_iff:
  "isFailing_range checks b \<longleftrightarrow> b \<or> (\<exists>(k, v) \<in> set checks. \<not> Healthy v)"
proof (induction checks arbitrary: b)
  case Nil
  then show ?case by simp
next
  case (Cons a checks)
  obtain k v where a: "a = (k, v)" by (cases a)
  show ?case by (cases "Healthy v") (simp_all add: a Cons.IH)
qed

lemma statusResponse_send_fresh:
  assumes "wroteHeader w = None"
  shows "wroteHeader (fst (statusResponse_send (w, lg) status p)) = Some status"
    and "writeError w = None \<Longrightarrow> written (fst (statusResponse_send (w, lg) status p)) = written w @ p"
    and "writeError w = None \<Longrightarrow> snd (statusResponse_send (w, lg) status p) = lg"
    and "map_of (header (fst (statusResponse_send (w, lg) status p))) ''Content-Type''
           = Some ''application/json; charset=utf-8''"
    and "map_of (header (fst (statusResponse_send (w, lg) status p))) ''Content-Length''
           = Some (Sprint (length p))"
  using assms
  by (simp_all add: statusResponse_send_def Header_Set_def WriteHeader_def Write_def Let_def
      update_conv' split: option.splits)

subsection \<open>Schedules of ticks\<close>

lemma tick_frame:
  assumes "tick s g env = (out, s')"
  shows "goroutines s' = goroutines s" and "length (updaters s') = length (updaters s)"
    and "g < length (goroutines s) \<longrightarrow> u (goroutines s ! g) \<noteq> p \<Longrightarrow> updaters s' ! p = updaters s ! p"
  using assms
  by (auto simp: tick_def updater_Update_def Let_def split: if_splits outcome.splits)

lemma run_frame:
  assumes "run s evs = (out, s')"
  shows "goroutines s' = goroutines s \<and> length (updaters s') = length (updaters s) \<and>
         ((\<forall>(g, env) \<in> set evs. g < length (goroutines s) \<longrightarrow> u (goroutines s ! g) \<noteq> p) \<longrightarrow>
            updaters s' ! p = updaters s ! p)"
  using assms
proof (induction evs arbitrary: s)
  case Nil
  then show ?case by simp
next
  case (Cons ev evs)
  obtain g env where ev: "ev = (g, env)" by (cases ev)
  obtain o1 s1 where t: "tick s g env = (o1, s1)" by (cases "tick s g env")
  note fr = tick_frame [OF t]
  show ?case
  proof (cases o1)
    case (Panics m)
    with Cons.prems ev t have "s' = s1" by simp
    with fr show ?thesis by (auto simp: ev)
  next
    case (Returns x)
    with Cons.prems ev t have "run s1 evs = (out, s')" by simp
    from Cons.IH [OF this] fr show ?thesis by (auto simp: ev)
  qed
qed

lemma run_append:
  "run s (evs1 @ evs2) =
     (case run s evs1 of (Panics m, s') \<Rightarrow> (Panics m, s') | (Returns x, s') \<Rightarrow> run s' evs2)"
  by (induction evs1 arbitrary: s) (auto split: prod.splits outcome.splits)

lemma PeriodicChecker_eq:
  "PeriodicChecker s C P =
     (s\<lparr>updaters := updaters s @ [zero_Result],
        goroutines := goroutines s @ [\<lparr>period = P, check = C, u = length (updaters s)\<rparr>]\<rparr>,
      UpdaterPtr (length (updaters s)))"
  by (simp add: PeriodicChecker_def NewStatusUpdater_def)

lemma others_miss:
  assumes wf: "\<forall>gr \<in> set (goroutines s). u gr < length (updaters s)"
      and G: "G = goroutines s @ [\<lparr>period = P, check = C, u = length (updaters s)\<rparr>]"
      and no: "\<forall>(g, env) \<in> set evs. g \<noteq> length (goroutines s)"
  shows "\<forall>(g, env) \<in> set evs. g < length G \<longrightarrow> u (G ! g) \<noteq> length (updaters s)"
proof -
  have "u (G ! g) \<noteq> length (updaters s)" if "g < length G" "g \<noteq> length (goroutines s)" for g
  proof -
    from that G have lt: "g < length (goroutines s)" by simp
    then have "G ! g = goroutines s ! g" by (simp add: G nth_append)
    moreover from wf lt have "u (goroutines s ! g) < length (updaters s)" by simp
    ultimately show ?thesis by simp
  qed
  with no show ?thesis by blast
qed

lemma probed_eq:
  "PeriodicChecker started (CheckFunc probe) 5 = (probed, UpdaterPtr 0)"
  "probed = \<lparr>updaters = [zero_Result], registries = [\<lparr>registeredChecks = Some []\<rparr>],
     DefaultRegistry = Some 0, goroutines = [\<lparr>period = 5, check = CheckFunc probe, u = 0\<rparr>]\<rparr>"
  by (simp_all add: probed_def PeriodicChecker_eq init_def NewRegistry_def)

section \<open>The claims\<close>

subsection \<open>Updater\<close>

text \<open>
  Claim C4. For every updater and every \<open>Result\<close> \<open>R\<close>: \<open>Update(R)\<close> returns, and a
  \<open>Check()\<close> that follows it with no \<open>Update\<close> in between returns exactly \<open>R\<close>. The
  updater is any allocated cell, which is what every pointer made by \<open>NewStatusUpdater\<close> is.
\<close>

theorem updater_Update_then_Check:
  assumes "p < length (updaters s)"
  shows "fst (updater_Update s p R) = Returns () \<and>
         updater_Check (snd (updater_Update s p R)) p = Returns R"
  using assms by (simp add: updater_Update_def updater_Check_def)

text \<open>C4 on the updater that \<open>NewStatusUpdater\<close> makes in a started process.\<close>

theorem updater_Update_then_Check_witness:
  "snd (NewStatusUpdater (started :: unit process))
     < length (updaters (fst (NewStatusUpdater (started :: unit process)))) \<and>
   updater_Check
     (snd (updater_Update (fst (NewStatusUpdater (started :: unit process)))
             (snd (NewStatusUpdater (started :: unit process)))
             \<lparr>Error = Some (GoError ''timeout''), Result.Message = ''disk full''\<rparr>))
     (snd (NewStatusUpdater (started :: unit process)))
     = Returns \<lparr>Error = Some (GoError ''timeout''), Result.Message = ''disk full''\<rparr>"
proof -
  have h: "snd (NewStatusUpdater (started :: unit process))
             < length (updaters (fst (NewStatusUpdater (started :: unit process))))"
    by (simp add: NewStatusUpdater_def init_def NewRegistry_def)
  from updater_Update_then_Check [OF h] h show ?thesis by simp
qed

subsection \<open>Registration\<close>

text \<open>
  Claim C2. For every registry and every name it already holds a checker for,
  \<open>Register\<close> with that name panics with the message \<open>Check already exists: <name>\<close>,
  and the registry still holds the old checker under the name: nothing is overwritten
  or merged.
\<close>

theorem Register_duplicate_panics:
  assumes "registered s r name = Some old"
  shows "fst (Registry_Register s (Some r) name chk) = Panics (''Check already exists: '' @ name) \<and>
         registered (snd (Registry_Register s (Some r) name chk)) r name = Some old"
  using assms
  by (auto simp: registered_def Registry_Register_def Let_def split: if_splits option.splits)

text \<open>C2 on the registry that holds \<open>disk\<close>: registering another checker as \<open>disk\<close>.\<close>

theorem Register_duplicate_panics_witness:
  "fst (Registry_Register one_check (Some 0) ''disk'' (CheckFunc healthy_check))
     = Panics ''Check already exists: disk'' \<and>
   registered (snd (Registry_Register one_check (Some 0) ''disk'' (CheckFunc healthy_check))) 0 ''disk''
     = Some (CheckFunc failing_check)"
proof -
  have h: "registered one_check 0 ''disk'' = Some (CheckFunc failing_check)"
    by (simp add: one_check_eq registered_def)
  from Register_duplicate_panics [OF h, of "CheckFunc healthy_check"] show ?thesis by simp
qed

text \<open>
  Claim C10. When \<open>Register\<close> fails on a duplicate name, that is, panics with
  \<open>Check already exists: <name>\<close>, the state it leaves is the state before the call: the
  mapping of the registry, and everything else, is as it was. This holds for a nil receiver
  too.
\<close>

theorem Register_failure_leaves_state:
  assumes "fst (Registry_Register s registry name chk) = Panics (''Check already exists: '' @ name)"
  shows "snd (Registry_Register s registry name chk) = s"
  using assms by (auto simp: Registry_Register_def Let_def split: option.splits if_splits)

text \<open>C10 on the default registry that holds \<open>disk\<close>, through a nil receiver.\<close>

theorem Register_failure_leaves_state_witness:
  "snd (Registry_Register one_check None ''disk'' (CheckFunc healthy_check)) = one_check"
proof -
  have h: "fst (Registry_Register one_check None ''disk'' (CheckFunc healthy_check))
             = Panics (''Check already exists: '' @ ''disk'')"
    by (simp add: one_check_eq Registry_Register_def)
  from Register_failure_leaves_state [OF h] show ?thesis .
qed

text \<open>
  Claim C9. \<open>Register\<close> on a nil \<open>*Registry\<close> is \<open>Register\<close> on \<open>DefaultRegistry\<close>: same
  outcome, same state. The nil receiver is no failure: where \<open>DefaultRegistry\<close> is an
  initialised registry that has no checker under the name, the call returns and the checker
  is in the default registry afterwards. (A name the default registry already holds panics
  as every duplicate does, see C2.)
\<close>

theorem Register_nil_receiver:
  "Registry_Register s None name chk = Register s name chk \<and>
   (DefaultRegistry s = Some d \<and> d < length (registries s) \<and>
    registeredChecks (registries s ! d) = Some al \<and> map_of al name = None \<longrightarrow>
      fst (Registry_Register s None name chk) = Returns () \<and>
      registered (snd (Registry_Register s None name chk)) d name = Some chk \<and>
      DefaultRegistry (snd (Registry_Register s None name chk)) = Some d)"
  by (auto simp: Registry_Register_def Register_def registered_def Let_def update_conv'
      split: option.splits)

text \<open>C9 in a started process: the registration through nil lands in registry 0, the
  default registry.\<close>

theorem Register_nil_receiver_witness:
  "fst (Registry_Register (started :: unit process) None ''disk'' (CheckFunc failing_check)) = Returns () \<and>
   registered (snd (Registry_Register (started :: unit process) None ''disk'' (CheckFunc failing_check)))
      0 ''disk'' = Some (CheckFunc failing_check)"
proof -
  have h: "DefaultRegistry (started :: unit process) = Some 0 \<and>
           0 < length (registries (started :: unit process)) \<and>
           registeredChecks (registries (started :: unit process) ! 0) = Some [] \<and>
           map_of ([] :: (string \<times> unit Checker) list) ''disk'' = None"
    by (simp add: init_def NewRegistry_def)
  from Register_nil_receiver [of started "''disk''" "CheckFunc failing_check" 0 "[]"] h
  show ?thesis by blast
qed

subsection \<open>Aggregation\<close>

text \<open>
  Claim C3. Take a registry with an empty mapping (as \<open>NewRegistry\<close> makes it) and
  register checkers under pairwise different names. Every registration returns. If
  each of the checkers returns a \<open>Result\<close> in the environment of the call, \<open>CheckStatus\<close>
  returns a snapshot whose names are exactly the registered names, each once, and the entry
  of a name has \<open>Healthy\<close> true exactly when the \<open>Result\<close> of its checker has a nil
  \<open>Error\<close>, and has the \<open>Message\<close> of that \<open>Result\<close>.
\<close>

theorem CheckStatus_one_entry_per_name:
  assumes "r < length (registries s0)" and "registeredChecks (registries s0 ! r) = Some []"
      and "distinct (map fst regs)"
      and "\<forall>(name, chk) \<in> set regs. \<exists>res. Check env s0 chk = Returns res"
  shows "fst (Register_all s0 (Some r) regs) = Returns () \<and>
         (\<exists>st. Registry_CheckStatus env (snd (Register_all s0 (Some r) regs)) (Some r) = Returns st \<and>
               distinct (map fst st) \<and> fst ` set st = fst ` set regs \<and>
               (\<forall>(name, chk) \<in> set regs. \<exists>res.
                   Check env (snd (Register_all s0 (Some r) regs)) chk = Returns res \<and>
                   map_of st name = Some \<lparr>Healthy = (Error res = None), Message = Result.Message res\<rparr>))"
proof -
  let ?s = "s0\<lparr>registries := (registries s0)[r := (registries s0 ! r)\<lparr>registeredChecks := Some regs\<rparr>]\<rparr>"
  have all: "Register_all s0 (Some r) regs = (Returns (), ?s)"
    using Register_all_fresh [OF assms(1,2,3)] by simp
  have chk: "Check env ?s c = Check env s0 c" for c
    by (rule Check_updaters) simp
  have cs: "Registry_CheckStatus env ?s (Some r) = CheckStatus_range env ?s regs []"
    using assms(1) by (simp add: Registry_CheckStatus_def)
  from assms(4) have "\<forall>(name, chk) \<in> set regs. \<exists>res. Check env ?s chk = Returns res"
    by (simp add: chk)
  from CheckStatus_range_Returns [OF this, of "[]"]
  obtain st where st: "CheckStatus_range env ?s regs [] = Returns st" ..
  have "distinct (map fst st)"
    using CheckStatus_range_distinct [OF st] by simp
  moreover have "fst ` set st = fst ` set regs"
    using CheckStatus_range_keys [OF st] by simp
  moreover have "\<forall>(name, chk) \<in> set regs. \<exists>res. Check env ?s chk = Returns res \<and>
       map_of st name = Some \<lparr>Healthy = (Error res = None), Message = Result.Message res\<rparr>"
    using CheckStatus_range_entry [OF st assms(3)] by blast
  ultimately show ?thesis
    using all cs st by simp
qed

text \<open>C3 on the default registry of a started process with the checks \<open>disk\<close> (failing) and
  \<open>db\<close> (healthy).\<close>

theorem CheckStatus_one_entry_per_name_witness:
  "fst (Register_all started (Some 0) two_checks) = Returns () \<and>
   (\<exists>st. Registry_CheckStatus () (snd (Register_all started (Some 0) two_checks)) (Some 0) = Returns st \<and>
         distinct (map fst st) \<and> fst ` set st = {''disk'', ''db''} \<and>
         map_of st ''disk'' = Some \<lparr>Healthy = False, Message = ''disk full''\<rparr> \<and>
         map_of st ''db'' = Some \<lparr>Healthy = True, Message = ''ok''\<rparr>)"
proof -
  have h1: "0 < length (registries (started :: unit process))"
    and h2: "registeredChecks (registries (started :: unit process) ! 0) = Some []"
    by (simp_all add: init_def NewRegistry_def)
  have h3: "distinct (map fst two_checks)"
    by (simp add: two_checks_def)
  have h4: "\<forall>(name, chk) \<in> set two_checks. \<exists>res. Check () started chk = Returns res"
    by (simp add: two_checks_def failing_check_def healthy_check_def)
  from CheckStatus_one_entry_per_name [OF h1 h2 h3 h4]
  obtain st where reg: "fst (Register_all started (Some 0) two_checks) = Returns ()"
    and st: "Registry_CheckStatus () (snd (Register_all started (Some 0) two_checks)) (Some 0) = Returns st"
    and d: "distinct (map fst st)" and k: "fst ` set st = fst ` set two_checks"
    and e: "\<forall>(name, chk) \<in> set two_checks. \<exists>res.
               Check () (snd (Register_all started (Some 0) two_checks)) chk = Returns res \<and>
               map_of st name = Some \<lparr>Healthy = (Error res = None), Message = Result.Message res\<rparr>"
    by blast
  from e have "map_of st ''disk'' = Some \<lparr>Healthy = False, Message = ''disk full''\<rparr>"
    and "map_of st ''db'' = Some \<lparr>Healthy = True, Message = ''ok''\<rparr>"
    by (auto simp: two_checks_def failing_check_def healthy_check_def)
  moreover from k have "fst ` set st = {''disk'', ''db''}"
    by (simp add: two_checks_def)
  ultimately show ?thesis using reg st d by blast
qed

text \<open>
  Claim C8 says that a panic raised inside a registered checker's \<open>Check()\<close> never
  escapes \<open>CheckStatus\<close>. The code has no \<open>recover\<close>: with the one check \<open>db\<close> whose
  \<open>Check()\<close> panics with \<open>boom\<close>, \<open>CheckStatus\<close> on the default registry panics with
  \<open>boom\<close>.
\<close>

theorem CheckStatus_panic_escapes:
  "Registry_CheckStatus () panicking_registry (DefaultRegistry panicking_registry) = Panics ''boom''"
  by (simp add: panicking_registry_def Registry_CheckStatus_def Register_def Registry_Register_def
      init_def NewRegistry_def panicking_check_def)

text \<open>
  Claim C8, amended. On a registry (a pointer that is not nil), \<open>CheckStatus\<close> panics
  exactly when the \<open>Check()\<close> of some registered checker panics: such a panic is not caught
  and escapes, and nothing else makes \<open>CheckStatus\<close> panic. In particular a failure that
  a checker reports in its \<open>Result\<close> never makes \<open>CheckStatus\<close> panic.
\<close>

theorem CheckStatus_Panics_iff:
  assumes "r < length (registries s)" and "registeredChecks (registries s ! r) = Some checks"
  shows "(\<exists>m. Registry_CheckStatus env s (Some r) = Panics m) \<longleftrightarrow>
         (\<exists>(name, chk) \<in> set checks. \<exists>m. Check env s chk = Panics m)"
  using assms by (simp add: Registry_CheckStatus_def CheckStatus_range_Panics_iff)

text \<open>The amended C8 on the registry whose one check reports a failure as data:
  \<open>CheckStatus\<close> does not panic.\<close>

theorem CheckStatus_Panics_iff_witness:
  "0 < length (registries one_check) \<and>
   \<not> (\<exists>m. Registry_CheckStatus () one_check (Some 0) = Panics m)"
proof -
  have h1: "0 < length (registries one_check)"
    and h2: "registeredChecks (registries one_check ! 0) = Some [(''disk'', CheckFunc failing_check)]"
    by (simp_all add: one_check_eq)
  have "\<not> (\<exists>(name, chk) \<in> set [(''disk'', CheckFunc failing_check)]. \<exists>m. Check () one_check chk = Panics m)"
    by (simp add: failing_check_def)
  with CheckStatus_Panics_iff [OF h1 h2, of "()"] h1 show ?thesis by blast
qed

subsection \<open>The status handler\<close>

text \<open>
  Claim C1. For a GET request whose \<open>Status\<close> is computed (\<open>CheckStatus\<close> returns) and
  encoded (\<open>json.Marshal\<close> of the \<open>Status\<close> succeeds; the other case is C7), on a response
  that no header has been sent to: the handler returns and the status code of the response is
  503 if some entry of the \<open>Status\<close> has \<open>Healthy\<close> false, and 200 if every entry has
  \<open>Healthy\<close> true, the \<open>Status\<close> with no entry included.
\<close>

theorem StatusHandler_GET_code:
  assumes "Method r = ''GET''" and "CheckStatus env s = Returns checks"
      and "Marshal (StatusValue checks) = Inr p" and "wroteHeader w = None"
  shows "fst (StatusHandler Marshal env s (w, lg) r) = Returns () \<and>
         wroteHeader (fst (snd (StatusHandler Marshal env s (w, lg) r))) =
           Some (if \<exists>(name, hc) \<in> set checks. \<not> Healthy hc then 503 else 200)"
  using assms statusResponse_send_fresh(1) [OF assms(4)]
  by (simp add: StatusHandler_def statusResponse_def isFailing_range_iff
      StatusServiceUnavailable_def StatusOK_def)

text \<open>C1 on the registry with the failing check \<open>disk\<close> (503) and on the empty registry of
  a started process (200).\<close>

theorem StatusHandler_GET_code_witness:
  "wroteHeader (fst (snd (StatusHandler encode_ok () one_check (NewRecorder, []) \<lparr>Method = ''GET''\<rparr>)))
     = Some 503 \<and>
   wroteHeader (fst (snd (StatusHandler encode_ok () started (NewRecorder, []) \<lparr>Method = ''GET''\<rparr>)))
     = Some 200"
proof -
  have m: "Method \<lparr>Method = ''GET''\<rparr> = ''GET''" by simp
  have e1: "encode_ok (StatusValue [(''disk'', \<lparr>Healthy = False, Message = ''disk full''\<rparr>)]) = Inr ''{}''"
    and e2: "encode_ok (StatusValue []) = Inr ''{}''"
    by (simp_all add: encode_ok_def)
  from StatusHandler_GET_code
         [of "\<lparr>Method = ''GET''\<rparr>" "()" one_check _ encode_ok _ NewRecorder "[]",
          OF m one_check_status e1 NewRecorder_fresh(1)]
       StatusHandler_GET_code
         [of "\<lparr>Method = ''GET''\<rparr>" "()" started _ encode_ok _ NewRecorder "[]",
          OF m started_status e2 NewRecorder_fresh(1)]
  show ?thesis by simp
qed

text \<open>
  Claim C6 says that a request whose method is not GET is answered with status 404 and an
  empty body. The handler calls \<open>http.NotFound\<close>, which writes a body: a POST request to
  a started process is answered with status 404 and the body \<open>404 page not found\<close> and a
  newline, which is not empty.
\<close>

theorem StatusHandler_POST_body:
  "wroteHeader (fst (snd (StatusHandler encode_ok () started (NewRecorder, []) \<lparr>Method = ''POST''\<rparr>)))
     = Some 404 \<and>
   written (fst (snd (StatusHandler encode_ok () started (NewRecorder, []) \<lparr>Method = ''POST''\<rparr>)))
     = ''404 page not found'' @ [CHR 0x0A] \<and>
   written (fst (snd (StatusHandler encode_ok () started (NewRecorder, []) \<lparr>Method = ''POST''\<rparr>)))
     \<noteq> ''''"
  by (simp add: StatusHandler_def http_NotFound_def http_Error_def Header_Set_def WriteHeader_def
      Write_def NewRecorder_def StatusNotFound_def StatusOK_def Let_def)

text \<open>
  Claim C6, amended. For every request whose method is not GET, on a response that nothing
  has been sent to and whose connection accepts the write: the handler returns, what it
  does is \<open>http.NotFound\<close> and nothing else (no check is evaluated, nothing is logged), the
  status code is 404 and the body is \<open>404 page not found\<close> and a newline, whatever checks are
  registered and whatever their health.
\<close>

theorem StatusHandler_other_method:
  assumes "Method r \<noteq> ''GET''" and "wroteHeader w = None" and "writeError w = None"
  shows "StatusHandler Marshal env s (w, lg) r = (Returns (), http_NotFound w r, lg) \<and>
         wroteHeader (http_NotFound w r) = Some 404 \<and>
         written (http_NotFound w r) = written w @ ''404 page not found'' @ [CHR 0x0A]"
  using assms
  by (simp add: StatusHandler_def http_NotFound_def http_Error_def Header_Set_def WriteHeader_def
      Write_def StatusNotFound_def StatusOK_def Let_def)

text \<open>The amended C6 on a DELETE request to the process whose one check panics.\<close>

theorem StatusHandler_other_method_witness:
  "StatusHandler encode_ok () panicking_registry (NewRecorder, []) \<lparr>Method = ''DELETE''\<rparr>
     = (Returns (), http_NotFound NewRecorder \<lparr>Method = ''DELETE''\<rparr>, []) \<and>
   wroteHeader (http_NotFound NewRecorder \<lparr>Method = ''DELETE''\<rparr>) = Some 404 \<and>
   written (http_NotFound NewRecorder \<lparr>Method = ''DELETE''\<rparr>) = ''404 page not found'' @ [CHR 0x0A]"
proof -
  have m: "Method \<lparr>Method = ''DELETE''\<rparr> \<noteq> ''GET''" by simp
  from StatusHandler_other_method
         [OF m NewRecorder_fresh(1,2), of encode_ok "()" panicking_registry "[]"]
       NewRecorder_fresh(3)
  show ?thesis by simp
qed

text \<open>
  Claim C7. When \<open>json.Marshal\<close> of the \<open>Status\<close> fails, on a response that nothing has
  been sent to and whose connection accepts the write: if the encoding of the fixed value
  with \<open>server_error\<close> = \<open>Could not parse error message\<close> succeeds, the status code is 500
  and the body is that encoding, whatever status code was asked for; if that encoding fails
  as well, the response is left untouched (no header, no status code, no body) and the two
  failures are logged.
\<close>

theorem statusResponse_encoding_failure:
  assumes "Marshal (StatusValue checks) = Inl err"
      and "wroteHeader w = None" and "writeError w = None"
  shows "(\<forall>p. Marshal (ServerErrorValue \<lparr>ServerError = ''Could not parse error message''\<rparr>) = Inr p \<longrightarrow>
            wroteHeader (fst (statusResponse Marshal (w, lg) r status checks)) = Some 500 \<and>
            written (fst (statusResponse Marshal (w, lg) r status checks)) = written w @ p \<and>
            snd (statusResponse Marshal (w, lg) r status checks)
              = lg @ [''error serializing health status: '' @ Error_text err]) \<and>
         (\<forall>err2. Marshal (ServerErrorValue \<lparr>ServerError = ''Could not parse error message''\<rparr>) = Inl err2 \<longrightarrow>
            fst (statusResponse Marshal (w, lg) r status checks) = w \<and>
            snd (statusResponse Marshal (w, lg) r status checks)
              = lg @ [''error serializing health status: '' @ Error_text err,
                      ''error serializing health status failure message: '' @ Error_text err2])"
  using assms statusResponse_send_fresh(1,2,3) [OF assms(2)]
  by (simp add: statusResponse_def StatusInternalServerError_def)

text \<open>C7 with an encoder that fails on a \<open>Status\<close> only, and with one that always fails.\<close>

theorem statusResponse_encoding_failure_witness:
  "wroteHeader (fst (statusResponse encode_fallback_only (NewRecorder, []) \<lparr>Method = ''GET''\<rparr> 200 []))
     = Some 500 \<and>
   written (fst (statusResponse encode_fallback_only (NewRecorder, []) \<lparr>Method = ''GET''\<rparr> 200 []))
     = ''server_error=Could not parse error message'' \<and>
   fst (statusResponse encode_fails (NewRecorder, []) \<lparr>Method = ''GET''\<rparr> 200 []) = NewRecorder \<and>
   written (fst (statusResponse encode_fails (NewRecorder, []) \<lparr>Method = ''GET''\<rparr> 200 [])) = ''''"
proof -
  have f1: "encode_fallback_only (StatusValue []) = Inl (GoError ''unsupported value'')"
    and f2: "encode_fallback_only (ServerErrorValue \<lparr>ServerError = ''Could not parse error message''\<rparr>)
               = Inr ''server_error=Could not parse error message''"
    by (simp_all add: encode_fallback_only_def)
  have g1: "encode_fails (StatusValue []) = Inl (GoError ''unsupported value'')"
    and g2: "encode_fails (ServerErrorValue \<lparr>ServerError = ''Could not parse error message''\<rparr>)
               = Inl (GoError ''unsupported value'')"
    by (simp_all add: encode_fails_def)
  from statusResponse_encoding_failure
         [of encode_fallback_only "[]" _ NewRecorder "[]" "\<lparr>Method = ''GET''\<rparr>" 200,
          OF f1 NewRecorder_fresh(1,2)] f2
       statusResponse_encoding_failure
         [of encode_fails "[]" _ NewRecorder "[]" "\<lparr>Method = ''GET''\<rparr>" 200,
          OF g1 NewRecorder_fresh(1,2)] g2
       NewRecorder_fresh(3)
  show ?thesis by simp
qed

subsection \<open>The periodic checker\<close>

text \<open>
  Claim C5. Let \<open>PeriodicChecker\<close> wrap a checker \<open>C\<close> with period \<open>P\<close>, in a process whose
  goroutines hold pointers to allocated updaters; it returns the checker \<open>c\<close> and starts
  goroutine number \<open>length (goroutines s)\<close>.
  \<^item> Construction does not evaluate \<open>C\<close>: whatever \<open>C\<close> is, also one that panics, the
    construction returns, and the new checker is reported as healthy with an empty message.
  \<^item> As long as the new goroutine has not completed a tick (other goroutines may have),
    \<open>c.Check()\<close> returns the zero \<open>Result\<close>.
  \<^item> After a schedule in which the new goroutine completed at least one tick, \<open>c.Check()\<close>
    returns what \<open>C.Check()\<close> returned at the last tick of the new goroutine, in the state
    and environment of that tick.
  A schedule that ends in a panic (of \<open>C\<close>, or of the ticker for a period that is not
  positive) ends the program; the statement is about the schedules that return.
\<close>

theorem PeriodicChecker_reads:
  assumes "\<forall>gr \<in> set (goroutines s). u gr < length (updaters s)"
      and "PeriodicChecker s C P = (s1, c)"
  shows "CheckStatus_range env s1 [(name, c)] [] = Returns [(name, \<lparr>Healthy = True, Message = ''''\<rparr>)] \<and>
         (\<forall>evs s2. (\<forall>(g, e) \<in> set evs. g \<noteq> length (goroutines s)) \<longrightarrow>
              run s1 evs = (Returns (), s2) \<longrightarrow> Check env s2 c = Returns zero_Result) \<and>
         (\<forall>evs1 e evs2 sa s2. (\<forall>(g, e') \<in> set evs2. g \<noteq> length (goroutines s)) \<longrightarrow>
              run s1 evs1 = (Returns (), sa) \<longrightarrow>
              run s1 (evs1 @ (length (goroutines s), e) # evs2) = (Returns (), s2) \<longrightarrow>
              (\<exists>res. Check e sa C = Returns res \<and> Check env s2 c = Returns res))"
proof -
  let ?p = "length (updaters s)" and ?g = "length (goroutines s)"
  let ?G = "goroutines s @ [\<lparr>period = P, check = C, u = ?p\<rparr>]"
  from assms(2) have s1: "s1 = s\<lparr>updaters := updaters s @ [zero_Result], goroutines := ?G\<rparr>"
    and c: "c = UpdaterPtr ?p"
    by (simp_all add: PeriodicChecker_eq)
  have G1: "goroutines s1 = ?G" and L1: "length (updaters s1) = Suc ?p"
    and U1: "updaters s1 ! ?p = zero_Result"
    by (simp_all add: s1)
  have first: "CheckStatus_range env s1 [(name, c)] [] = Returns [(name, \<lparr>Healthy = True, Message = ''''\<rparr>)]"
    by (simp add: c s1 updater_Check_def zero_Result_def)
  have before: "Check env s2 c = Returns zero_Result"
    if no: "\<forall>(g, e) \<in> set evs. g \<noteq> ?g" and r: "run s1 evs = (Returns (), s2)" for evs s2
  proof -
    from others_miss [OF assms(1) refl no]
    have "\<forall>(g, e) \<in> set evs. g < length (goroutines s1) \<longrightarrow> u (goroutines s1 ! g) \<noteq> ?p"
      by (simp add: G1)
    with run_frame [OF r, of ?p] have "updaters s2 ! ?p = zero_Result" "length (updaters s2) = Suc ?p"
      by (simp_all add: U1 L1)
    then show ?thesis by (simp add: c updater_Check_def)
  qed
  have after: "\<exists>res. Check e sa C = Returns res \<and> Check env s2 c = Returns res"
    if no: "\<forall>(g, e') \<in> set evs2. g \<noteq> ?g" and r1: "run s1 evs1 = (Returns (), sa)"
      and r: "run s1 (evs1 @ (?g, e) # evs2) = (Returns (), s2)" for evs1 e evs2 sa s2
  proof -
    from run_frame [OF r1, of ?p] have Ga: "goroutines sa = ?G" and La: "length (updaters sa) = Suc ?p"
      by (simp_all add: G1 L1)
    from r r1 have r2: "run sa ((?g, e) # evs2) = (Returns (), s2)"
      by (simp add: run_append)
    obtain o1 sb where t: "tick sa ?g e = (o1, sb)" by (cases "tick sa ?g e")
    with r2 have o1: "o1 = Returns ()" and r3: "run sb evs2 = (Returns (), s2)"
      by (auto split: outcome.splits)
    from t o1 Ga La obtain res where res: "Check e sa C = Returns res"
      and sb: "sb = sa\<lparr>updaters := (updaters sa)[?p := res]\<rparr>"
      by (auto simp: tick_def updater_Update_def Let_def split: if_splits outcome.splits)
    have Gb: "goroutines sb = ?G" and Lb: "length (updaters sb) = Suc ?p" and Ub: "updaters sb ! ?p = res"
      by (simp_all add: sb Ga La)
    from others_miss [OF assms(1) refl no]
    have "\<forall>(g, e) \<in> set evs2. g < length (goroutines sb) \<longrightarrow> u (goroutines sb ! g) \<noteq> ?p"
      by (simp add: Gb)
    with run_frame [OF r3, of ?p] have "updaters s2 ! ?p = res" "length (updaters s2) = Suc ?p"
      by (simp_all add: Ub Lb)
    with res show ?thesis by (simp add: c updater_Check_def)
  qed
  from first before after show ?thesis by blast
qed

text \<open>C5 on the periodic checker around \<open>probe\<close>: the zero \<open>Result\<close> at first; after a tick
  under load 7 and a tick under load 1, the \<open>Result\<close> of \<open>probe\<close> under load 1. And on
  the periodic checker around a checker that panics: its construction returns and it reads
  as the zero \<open>Result\<close>.\<close>

theorem PeriodicChecker_reads_witness:
  "Check 9 probed (UpdaterPtr 0) = Returns zero_Result \<and>
   Check 9 (snd (run probed [(0, 7), (0, 1)])) (UpdaterPtr 0)
     = Returns \<lparr>Error = None, Result.Message = ''up''\<rparr> \<and>
   Check () (fst (PeriodicChecker started (CheckFunc panicking_check) 1))
     (snd (PeriodicChecker started (CheckFunc panicking_check) 1)) = Returns zero_Result"
proof -
  have wf: "\<forall>gr \<in> set (goroutines (started :: nat process)).
              u gr < length (updaters (started :: nat process))"
    by (simp add: init_def NewRegistry_def)
  have g: "length (goroutines (started :: nat process)) = 0"
    by (simp add: init_def NewRegistry_def)
  note inst = PeriodicChecker_reads [OF wf probed_eq(1), of 9 "''db''", unfolded g]
  have r0: "run probed [] = (Returns (), probed)" by simp
  have r1: "run probed [(0, 7)] = (Returns (),
      probed\<lparr>updaters := [\<lparr>Error = Some (GoError ''overload''), Result.Message = ''busy''\<rparr>]\<rparr>)"
    by (simp add: probed_eq(2) tick_def probe_def updater_Update_def)
  have r2: "run probed ([(0, 7)] @ (0, 1) # []) = (Returns (), snd (run probed [(0, 7), (0, 1)]))"
    by (simp add: probed_eq(2) tick_def probe_def updater_Update_def)
  have e: "\<forall>(g, e') \<in> set ([] :: (nat \<times> nat) list). g \<noteq> 0" by simp
  from inst r0 e have a: "Check 9 probed (UpdaterPtr 0) = Returns zero_Result" by blast
  from inst e r1 r2 obtain res where
    "Check 1 (probed\<lparr>updaters := [\<lparr>Error = Some (GoError ''overload''), Result.Message = ''busy''\<rparr>]\<rparr>)
       (CheckFunc probe) = Returns res"
    "Check 9 (snd (run probed [(0, 7), (0, 1)])) (UpdaterPtr 0) = Returns res"
    by blast
  then have b: "Check 9 (snd (run probed [(0, 7), (0, 1)])) (UpdaterPtr 0)
      = Returns \<lparr>Error = None, Result.Message = ''up''\<rparr>"
    by (simp add: probe_def)
  have wf': "\<forall>gr \<in> set (goroutines (started :: unit process)).
               u gr < length (updaters (started :: unit process))"
    by (simp add: init_def NewRegistry_def)
  have g': "length (goroutines (started :: unit process)) = 0"
    by (simp add: init_def NewRegistry_def)
  have p: "PeriodicChecker started (CheckFunc panicking_check) 1
      = (fst (PeriodicChecker started (CheckFunc panicking_check) 1),
         snd (PeriodicChecker started (CheckFunc panicking_check) 1))"
    by simp
  have e': "\<forall>(g, e') \<in> set ([] :: (nat \<times> unit) list). g \<noteq> 0" by simp
  have r0': "run (fst (PeriodicChecker started (CheckFunc panicking_check) 1)) []
      = (Returns (), fst (PeriodicChecker started (CheckFunc panicking_check) 1))"
    by simp
  from PeriodicChecker_reads [OF wf' p, of "()" "''db''", unfolded g'] e' r0'
  have "Check () (fst (PeriodicChecker started (CheckFunc panicking_check) 1))
     (snd (PeriodicChecker started (CheckFunc panicking_check) 1)) = Returns zero_Result"
    by blast
  with a b show ?thesis by simp
qed

end
